theory Spec2Isabelle
  imports Complex_Main "HOL-Library.FSet" "HOL-Library.Sublist"
begin

section \<open>Data model (core/entity.py, core/relationship.py)\<close>

text \<open>
  Conventions of the embedding.
  \<^item> A Python \<open>float\<close> is a \<open>real\<close>: the arithmetic of the source is read as exact
    arithmetic, rounding is not modelled.
  \<^item> A \<open>UUID\<close> is an opaque identifier that the source only compares and hashes: a \<open>nat\<close>.
  \<^item> A \<open>datetime\<close> is a point on a discrete clock; \<open>datetime.now()\<close> is an argument
    \<open>now\<close> of every function that reads the clock.
  \<^item> A \<open>str\<close> is a \<open>string\<close>; \<open>str.lower\<close> is modelled on ASCII letters.
  \<^item> A \<open>Set[str]\<close> is a finite set; a \<open>Dict\<close> is an association list in insertion order
    with distinct keys, as Python dictionaries are.
  \<^item> A value of type \<open>Any\<close> is a \<open>pyval\<close>.
\<close>

type_synonym uuid = nat
type_synonym datetime = nat

datatype pyval = PNone | PBool bool | PInt int | PFloat real | PStr string | PList "pyval list"

datatype EntityType =
  OBJECT | SPACE | LANDMARK | PERSON | MATERIAL | EQUIPMENT | CONTAINER | SURFACE | UNKNOWN

datatype RelationType =
  ON | IN | NEAR | NEXT_TO | ABOVE | BELOW | LEFT_OF | RIGHT_OF | IN_FRONT_OF | BEHIND
  | ATTACHED_TO
  | PART_OF | USED_WITH | OPERATES | PRODUCES | CONSUMES
  | IS_A | INSTANCE_OF
  | OWNED_BY | ASSIGNED_TO | STORED_IN
  | BEFORE | AFTER | REPLACES
  | RELATED_TO

record VisualFeatures =
  embedding :: "real list option"
  color_histogram :: "real list option"
  dominant_colors :: "string list"
  size_estimate :: "string option"
  shape_descriptor :: "string option"
  texture_features :: "real list option"

record SemanticAttributes =
  category :: "string option"
  subcategory :: "string option"
  sem_function :: "string option"
  material_composition :: "string list"
  brand :: "string option"
  model :: "string option"
  tags :: "string fset"
  description :: "string option"
  aliases :: "string list"

record Entity =
  e_id :: uuid
  entity_type :: EntityType
  name :: string
  semantic :: SemanticAttributes
  visual :: VisualFeatures
  first_observed :: datetime
  last_observed :: datetime
  observation_count :: int
  source_devices :: "string fset"
  confidence :: real
  properties :: "(string \<times> pyval) list"

record SpatialProperties =
  distance_estimate :: "string option"
  distance_meters :: "real option"
  relative_orientation :: "real option"
  elevation_difference :: "string option"
  sp_confidence :: real

record Relationship =
  r_id :: uuid
  relation_type :: RelationType
  source_id :: uuid
  target_id :: uuid
  spatial :: "SpatialProperties option"
  r_first_observed :: datetime
  r_last_observed :: datetime
  r_observation_count :: int
  r_source_devices :: "string fset"
  r_confidence :: real
  is_bidirectional :: bool
  r_properties :: "(string \<times> pyval) list"

subsection \<open>Python dictionaries and truthiness\<close>

text \<open>\<open>d[k] = v\<close>: an existing key keeps its position, a new key goes to the end.\<close>

fun dict_set :: "('k \<times> 'v) list \<Rightarrow> 'k \<Rightarrow> 'v \<Rightarrow> ('k \<times> 'v) list" where
  "dict_set [] k v = [(k, v)]"
| "dict_set ((k', v') # d) k v = (if k' = k then (k, v) # d else (k', v') # dict_set d k v)"

text \<open>\<open>d.update(other)\<close>: the items of \<open>other\<close> are stored one by one, in order.\<close>

fun dict_update :: "('k \<times> 'v) list \<Rightarrow> ('k \<times> 'v) list \<Rightarrow> ('k \<times> 'v) list" where
  "dict_update d [] = d"
| "dict_update d ((k, v) # other) = dict_update (dict_set d k v) other"

text \<open>\<open>d.get(k)\<close> is \<open>map_of d k\<close>; \<open>d.values()\<close> is \<open>map snd d\<close>.\<close>

text \<open>The truth value of an \<open>Optional[str]\<close>: \<open>None\<close> and the empty string are false.\<close>

fun truthy_str :: "string option \<Rightarrow> bool" where
  "truthy_str None = False"
| "truthy_str (Some s) = (s \<noteq> [])"

text \<open>The truth value of an \<open>Optional[List[float]]\<close>: \<open>None\<close> and \<open>[]\<close> are false.\<close>

fun truthy_list :: "'a list option \<Rightarrow> bool" where
  "truthy_list None = False"
| "truthy_list (Some xs) = (xs \<noteq> [])"

subsection \<open>Strings\<close>

definition lower_char :: "char \<Rightarrow> char" where
  "lower_char c =
     (case map_of (zip ''ABCDEFGHIJKLMNOPQRSTUVWXYZ'' ''abcdefghijklmnopqrstuvwxyz'') c of
        Some d \<Rightarrow> d
      | None \<Rightarrow> c)"

definition lower :: "string \<Rightarrow> string" where
  "lower s = map lower_char s"

text \<open>\<open>q in s\<close> on strings: \<open>q\<close> occurs in \<open>s\<close> as a contiguous run.\<close>

fun str_in :: "string \<Rightarrow> string \<Rightarrow> bool" where
  "str_in q [] = (q = [])"
| "str_in q (c # cs) = (prefix q (c # cs) \<or> str_in q cs)"

section \<open>Entity.merge\_observation (core/entity.py, lines 78-109)\<close>

text \<open>
  The confidence is blended on line 96 and compared on line 105. The model makes the
  comparison on the exact blend; in the source the blend is a rounded float, and where the
  exact blend equals the incoming confidence, or lies within rounding of it, the test of
  the source can come out the other way (at weight 0.3 and confidences 0.2 and 0.2 the
  float blend is 0.19999999999999998). No statement below relies on the test at such
  an input.
\<close>

definition merge_observation :: "Entity \<Rightarrow> Entity \<Rightarrow> real \<Rightarrow> datetime \<Rightarrow> Entity" where
  "merge_observation self other weight now =
    (let s1 = self\<lparr>last_observed := now\<rparr>;
         s2 = s1\<lparr>observation_count := observation_count s1 + 1\<rparr>;
         s3 = (if tags (semantic other) \<noteq> {||}
               then s2\<lparr>semantic := (semantic s2)
                        \<lparr>tags := tags (semantic s2) |\<union>| tags (semantic other)\<rparr>\<rparr>
               else s2);
         s4 = (if aliases (semantic other) \<noteq> []
               then s3\<lparr>semantic := (semantic s3)
                        \<lparr>aliases := aliases (semantic s3) @ aliases (semantic other)\<rparr>\<rparr>
               else s3);
         s5 = s4\<lparr>confidence := (1 - weight) * confidence s4 + weight * confidence other\<rparr>;
         s6 = s5\<lparr>source_devices := source_devices s5 |\<union>| source_devices other\<rparr>;
         s7 = s6\<lparr>properties := dict_update (properties s6) (properties other)\<rparr>
     in if confidence other > confidence s7
        then (let s8 = (if truthy_str (category (semantic other))
                        then s7\<lparr>semantic := (semantic s7)
                                 \<lparr>category := category (semantic other)\<rparr>\<rparr>
                        else s7)
              in if truthy_str (sem_function (semantic other))
                 then s8\<lparr>semantic := (semantic s8)
                          \<lparr>sem_function := sem_function (semantic other)\<rparr>\<rparr>
                 else s8)
        else s7)"

section \<open>Relationship (core/relationship.py)\<close>

text \<open>\<open>Relationship.merge_observation\<close>, lines 110-121.\<close>

definition rel_merge_observation :: "Relationship \<Rightarrow> real \<Rightarrow> datetime \<Rightarrow> Relationship" where
  "rel_merge_observation self weight now =
    (let s1 = self\<lparr>r_last_observed := now\<rparr>;
         s2 = s1\<lparr>r_observation_count := r_observation_count s1 + 1\<rparr>
     in s2\<lparr>r_confidence := min 1 (r_confidence s2 + weight * (1 - r_confidence s2))\<rparr>)"

text \<open>\<open>Relationship.is_spatial\<close>, lines 123-132.\<close>

definition spatial_types :: "RelationType list" where
  "spatial_types =
     [ON, IN, NEAR, NEXT_TO, ABOVE, BELOW, LEFT_OF, RIGHT_OF, IN_FRONT_OF, BEHIND, ATTACHED_TO]"

definition is_spatial :: "Relationship \<Rightarrow> bool" where
  "is_spatial self = (relation_type self \<in> set spatial_types)"

section \<open>Entity.matches (core/entity.py, lines 111-167)\<close>

text \<open>
  \<open>Entity._cosine_similarity\<close>. The exponent \<open>0.5\<close> is applied to a sum of squares,
  which is never negative: it is the square root.
\<close>

definition cosine_similarity :: "real list \<Rightarrow> real list \<Rightarrow> real" where
  "cosine_similarity vec1 vec2 =
     (if length vec1 \<noteq> length vec2 then 0
      else
        (let dot_product = sum_list (map (\<lambda>(a, b). a * b) (zip vec1 vec2));
             norm1 = sqrt (sum_list (map (\<lambda>a. a * a) vec1));
             norm2 = sqrt (sum_list (map (\<lambda>b. b * b) vec2))
         in if norm1 = 0 \<or> norm2 = 0 then 0
            else dot_product / (norm1 * norm2)))"

text \<open>
  The block "visual similarity": entered when both embeddings are true in Python's sense
  (neither \<open>None\<close> nor empty); it returns \<open>True\<close> when the similarity exceeds the
  threshold and falls through otherwise.
\<close>

definition visual_match :: "Entity \<Rightarrow> Entity \<Rightarrow> real \<Rightarrow> bool" where
  "visual_match self other threshold =
     (case (embedding (visual self), embedding (visual other)) of
        (Some vec1, Some vec2) \<Rightarrow>
          vec1 \<noteq> [] \<and> vec2 \<noteq> [] \<and> cosine_similarity vec1 vec2 > threshold
      | _ \<Rightarrow> False)"

text \<open>The block "semantic tag overlap"; \<open>/\<close> on two \<open>int\<close>s is true division.\<close>

definition tag_match :: "Entity \<Rightarrow> Entity \<Rightarrow> bool" where
  "tag_match self other =
     (tags (semantic self) \<noteq> {||} \<and> tags (semantic other) \<noteq> {||} \<and>
      (let tag_overlap = fcard (tags (semantic self) |\<inter>| tags (semantic other));
           tag_union = fcard (tags (semantic self) |\<union>| tags (semantic other))
       in tag_union > 0 \<and> real tag_overlap / real tag_union > 1 / 2))"

definition all_names :: "Entity \<Rightarrow> string set" where
  "all_names e = {lower (name e)} \<union> set (map lower (aliases (semantic e)))"

definition matches :: "Entity \<Rightarrow> Entity \<Rightarrow> real \<Rightarrow> bool" where
  "matches self other threshold =
     (if entity_type self \<noteq> entity_type other \<and> entity_type self \<noteq> UNKNOWN
         \<and> entity_type other \<noteq> UNKNOWN
      then False
      else if lower (name self) = lower (name other) then True
      else if all_names self \<inter> all_names other \<noteq> {} then True
      else if visual_match self other threshold then True
      else if tag_match self other then True
      else False)"

subsection \<open>The matching rule in the words of the specification\<close>

definition dot_spec :: "real list \<Rightarrow> real list \<Rightarrow> real" where
  "dot_spec u v = (\<Sum>i<length u. u ! i * v ! i)"

definition norm_spec :: "real list \<Rightarrow> real" where
  "norm_spec u = sqrt (\<Sum>i<length u. (u ! i)\<^sup>2)"

definition cosine_spec :: "real list \<Rightarrow> real list \<Rightarrow> real" where
  "cosine_spec u v =
     (if length u \<noteq> length v \<or> norm_spec u = 0 \<or> norm_spec v = 0 then 0
      else dot_spec u v / (norm_spec u * norm_spec v))"

definition jaccard_spec :: "string fset \<Rightarrow> string fset \<Rightarrow> real" where
  "jaccard_spec A B = real (card (fset A \<inter> fset B)) / real (card (fset A \<union> fset B))"

text \<open>
  An entity has a visual embedding when the vector is present and not of length zero.
\<close>

definition has_embedding :: "Entity \<Rightarrow> real list \<Rightarrow> bool" where
  "has_embedding e u = (embedding (visual e) = Some u \<and> u \<noteq> [])"

definition names_spec :: "Entity \<Rightarrow> string set" where
  "names_spec e = lower ` ({name e} \<union> set (aliases (semantic e)))"

definition matches_spec :: "Entity \<Rightarrow> Entity \<Rightarrow> real \<Rightarrow> bool" where
  "matches_spec a b t =
     (if entity_type a \<noteq> UNKNOWN \<and> entity_type b \<noteq> UNKNOWN \<and> entity_type a \<noteq> entity_type b
      then False
      else if lower (name a) = lower (name b) then True
      else if names_spec a \<inter> names_spec b \<noteq> {} then True
      else if (\<exists>u v. has_embedding a u \<and> has_embedding b v \<and> cosine_spec u v > t) then True
      else if tags (semantic a) \<noteq> {||} \<and> tags (semantic b) \<noteq> {||}
              \<and> jaccard_spec (tags (semantic a)) (tags (semantic b)) > 1 / 2 then True
      else False)"

section \<open>SemanticGraph (graph/semantic\_graph.py)\<close>

subsection \<open>State\<close>

text \<open>
  Entity and Relationship objects are mutable and shared: the relationship stored on an edge
  of the multigraph and the one stored in \<open>_relationship_index\<close> are references to one
  object, and \<open>merge_observation\<close> mutates the object it is called on. An object is modelled
  as a pair of its identity and its current state; mutating an object rewrites the state
  wherever that identity is stored. Every object handed to \<open>add_entity\<close> or
  \<open>add_relationship\<close> is taken to be a fresh object.

  A Python \<open>set\<close> of ids is a duplicate-free list. The iteration order of a Python set is
  not specified by the language; the model iterates in insertion order, and no theorem
  below depends on that choice.
\<close>

type_synonym oid = nat
type_synonym 'a obj = "oid \<times> 'a"

datatype error =
  ValueError string | KeyError | AttributeError | NetworkXError | NodeNotFound | ValidationError

text \<open>
  \<open>networkx.MultiDiGraph\<close>: \<open>adj_succ\<close> is the nested dictionary
  \<open>_succ[u][v][key]\<close>, whose innermost value is the edge attribute \<open>relationship\<close>;
  \<open>adj_pred\<close> lists for every node \<open>v\<close> the keys of \<open>_pred[v]\<close> (the dictionary
  \<open>_pred[v][u]\<close> is the very dictionary \<open>_succ[u][v]\<close>). Every node is a key of both.
  The node attribute \<open>entity\<close> is the object held in \<open>_entity_index\<close> and is never read
  through the graph.
\<close>

record MultiDiGraph =
  adj_succ :: "(uuid \<times> (uuid \<times> (uuid \<times> Relationship obj) list) list) list"
  adj_pred :: "(uuid \<times> uuid list) list"

record SemanticGraph =
  graph :: MultiDiGraph
  entity_index :: "(uuid \<times> Entity obj) list"
  relationship_index :: "(uuid \<times> Relationship obj) list"
  entities_by_type :: "(EntityType \<times> uuid list) list"
  entities_by_name :: "(string \<times> uuid list) list"
  next_oid :: oid

definition empty_graph :: SemanticGraph where
  "empty_graph =
     \<lparr>graph = \<lparr>adj_succ = [], adj_pred = []\<rparr>, entity_index = [], relationship_index = [],
      entities_by_type = [], entities_by_name = [], next_oid = 0\<rparr>"

text \<open>\<open>d.get(k, [])\<close> and \<open>s.add(x)\<close>.\<close>

definition dget :: "('k \<times> 'v list) list \<Rightarrow> 'k \<Rightarrow> 'v list" where
  "dget d k = (case map_of d k of None \<Rightarrow> [] | Some v \<Rightarrow> v)"

definition set_add :: "'a list \<Rightarrow> 'a \<Rightarrow> 'a list" where
  "set_add s x = (if x \<in> set s then s else s @ [x])"

subsection \<open>The multigraph operations used by the source\<close>

definition has_node :: "MultiDiGraph \<Rightarrow> uuid \<Rightarrow> bool" where
  "has_node G n = (map_of (adj_succ G) n \<noteq> None)"

definition add_node :: "MultiDiGraph \<Rightarrow> uuid \<Rightarrow> MultiDiGraph" where
  "add_node G n =
     (if has_node G n then G
      else G\<lparr>adj_succ := adj_succ G @ [(n, [])], adj_pred := adj_pred G @ [(n, [])]\<rparr>)"

text \<open>
  \<open>add_edge(u, v, key=key, relationship=r)\<close>: missing endpoints become nodes; an edge
  \<open>(u, v, key)\<close> that exists has its attribute replaced, otherwise the edge is appended.
\<close>

definition add_edge :: "MultiDiGraph \<Rightarrow> uuid \<Rightarrow> uuid \<Rightarrow> uuid \<Rightarrow> Relationship obj \<Rightarrow> MultiDiGraph" where
  "add_edge G u v key r =
     (let G1 = add_node (add_node G u) v;
          nbrs = dget (adj_succ G1) u;
          keydict = dget nbrs v
      in G1\<lparr>adj_succ := dict_set (adj_succ G1) u (dict_set nbrs v (dict_set keydict key r)),
             adj_pred := dict_set (adj_pred G1) v (set_add (dget (adj_pred G1) v) u)\<rparr>)"

definition has_edge :: "MultiDiGraph \<Rightarrow> uuid \<Rightarrow> uuid \<Rightarrow> bool" where
  "has_edge G u v =
     (case map_of (adj_succ G) u of None \<Rightarrow> False | Some nbrs \<Rightarrow> map_of nbrs v \<noteq> None)"

definition get_edge_data :: "MultiDiGraph \<Rightarrow> uuid \<Rightarrow> uuid \<Rightarrow> Relationship obj list" where
  "get_edge_data G u v = map snd (dget (dget (adj_succ G) u) v)"

text \<open>
  \<open>out_edges(n, data=True)\<close> and \<open>in_edges(n, data=True)\<close>: neighbour by neighbour, key by
  key; asking for a node that is not in the graph raises \<open>NetworkXError\<close>.
\<close>

definition out_edges :: "MultiDiGraph \<Rightarrow> uuid \<Rightarrow> error + Relationship obj list" where
  "out_edges G n =
     (case map_of (adj_succ G) n of
        None \<Rightarrow> Inl NetworkXError
      | Some nbrs \<Rightarrow> Inr (concat (map (\<lambda>(v, keydict). map snd keydict) nbrs)))"

definition in_edges :: "MultiDiGraph \<Rightarrow> uuid \<Rightarrow> error + Relationship obj list" where
  "in_edges G n =
     (case map_of (adj_pred G) n of
        None \<Rightarrow> Inl NetworkXError
      | Some us \<Rightarrow> Inr (concat (map (\<lambda>u. get_edge_data G u n) us)))"

subsection \<open>Lookups\<close>

definition get_entity :: "SemanticGraph \<Rightarrow> uuid \<Rightarrow> Entity option" where
  "get_entity g entity_id = map_option snd (map_of (entity_index g) entity_id)"

text \<open>\<open>[self._entity_index[eid] for eid in entity_ids]\<close>: a missing id raises \<open>KeyError\<close>.\<close>

fun lookup_all :: "(uuid \<times> Entity obj) list \<Rightarrow> uuid list \<Rightarrow> error + Entity obj list" where
  "lookup_all idx [] = Inr []"
| "lookup_all idx (eid # eids) =
     (case map_of idx eid of
        None \<Rightarrow> Inl KeyError
      | Some e \<Rightarrow> (case lookup_all idx eids of Inl err \<Rightarrow> Inl err | Inr es \<Rightarrow> Inr (e # es)))"

definition get_entities_by_type :: "SemanticGraph \<Rightarrow> EntityType \<Rightarrow> error + Entity obj list" where
  "get_entities_by_type g t = lookup_all (entity_index g) (dget (entities_by_type g) t)"

text \<open>\<open>any(name_lower in alias.lower() for alias in aliases)\<close>\<close>

definition fuzzy_hit :: "string \<Rightarrow> Entity \<Rightarrow> bool" where
  "fuzzy_hit name_lower entity =
     (if str_in name_lower (lower (name entity)) then True
      else if list_ex (\<lambda>alias. str_in name_lower (lower alias)) (aliases (semantic entity))
      then True else False)"

definition get_entities_by_name_obj :: "SemanticGraph \<Rightarrow> string \<Rightarrow> bool \<Rightarrow> error + Entity obj list" where
  "get_entities_by_name_obj g nm fuzzy =
     (let name_lower = lower nm
      in if \<not> fuzzy
         then lookup_all (entity_index g) (dget (entities_by_name g) name_lower)
         else Inr (filter (\<lambda>(i, entity). fuzzy_hit name_lower entity)
                     (map snd (entity_index g))))"

text \<open>What the caller of \<open>get_entities_by_name\<close> sees: the entities.\<close>

definition get_entities_by_name :: "SemanticGraph \<Rightarrow> string \<Rightarrow> bool \<Rightarrow> error + Entity list" where
  "get_entities_by_name g nm fuzzy = map_sum id (map snd) (get_entities_by_name_obj g nm fuzzy)"

text \<open>\<open>get_relationships\<close>, lines 134-175. A \<open>UUID\<close> and a member of \<open>RelationType\<close> are always true.\<close>

definition get_relationships_obj ::
  "SemanticGraph \<Rightarrow> uuid option \<Rightarrow> uuid option \<Rightarrow> RelationType option \<Rightarrow> error + Relationship obj list" where
  "get_relationships_obj g src tgt rtype =
     (case (case (src, tgt) of
              (Some s, Some t) \<Rightarrow>
                Inr (if has_edge (graph g) s t then get_edge_data (graph g) s t else [])
            | (Some s, None) \<Rightarrow> out_edges (graph g) s
            | (None, Some t) \<Rightarrow> in_edges (graph g) t
            | (None, None) \<Rightarrow> Inr (map snd (relationship_index g))) of
        Inl err \<Rightarrow> Inl err
      | Inr relationships \<Rightarrow>
          (case rtype of
             None \<Rightarrow> Inr relationships
           | Some t \<Rightarrow> Inr (filter (\<lambda>(i, r). relation_type r = t) relationships)))"

definition get_relationships ::
  "SemanticGraph \<Rightarrow> uuid option \<Rightarrow> uuid option \<Rightarrow> RelationType option \<Rightarrow> error + Relationship list" where
  "get_relationships g src tgt rtype = map_sum id (map snd) (get_relationships_obj g src tgt rtype)"

subsection \<open>Identity resolution and insertion\<close>

text \<open>\<open>_find_matching_entity\<close>, lines 309-325; \<open>matches\<close> is called with its default threshold.\<close>

definition find_matching_entity :: "SemanticGraph \<Rightarrow> Entity \<Rightarrow> error + Entity obj option" where
  "find_matching_entity g entity =
     (case get_entities_by_name_obj g (name entity) False of
        Inl err \<Rightarrow> Inl err
      | Inr candidates \<Rightarrow>
          (case find (\<lambda>(i, candidate). matches candidate entity (7 / 10)) candidates of
             Some c \<Rightarrow> Inr (Some c)
           | None \<Rightarrow>
               if truthy_list (embedding (visual entity))
               then Inr (find (\<lambda>(i, existing). entity_type existing = entity_type entity
                                   \<and> matches existing entity (7 / 10))
                           (map snd (entity_index g)))
               else Inr None))"

text \<open>\<open>_update_entity_indices\<close>, lines 336-347.\<close>

definition update_entity_indices :: "SemanticGraph \<Rightarrow> Entity \<Rightarrow> SemanticGraph" where
  "update_entity_indices g entity =
     (let g1 = g\<lparr>entities_by_type :=
                   dict_set (entities_by_type g) (entity_type entity)
                     (set_add (dget (entities_by_type g) (entity_type entity)) (e_id entity))\<rparr>;
          name_lower = lower (name entity)
      in g1\<lparr>entities_by_name :=
               dict_set (entities_by_name g1) name_lower
                 (set_add (dget (entities_by_name g1) name_lower) (e_id entity))\<rparr>)"

text \<open>The effect of mutating the entity object \<open>i\<close>: its state changes where it is stored.\<close>

definition mutate_entity :: "SemanticGraph \<Rightarrow> oid \<Rightarrow> Entity \<Rightarrow> SemanticGraph" where
  "mutate_entity g i e' =
     g\<lparr>entity_index := map (\<lambda>(k, (j, e)). (k, (j, if j = i then e' else e))) (entity_index g)\<rparr>"

text \<open>\<open>add_entity\<close>, lines 31-57. The result is the outcome of the call and the state after it.\<close>

definition add_new_entity :: "SemanticGraph \<Rightarrow> Entity \<Rightarrow> SemanticGraph" where
  "add_new_entity g entity =
     (let g1 = g\<lparr>graph := add_node (graph g) (e_id entity)\<rparr>;
          g2 = g1\<lparr>entity_index := dict_set (entity_index g1) (e_id entity) (next_oid g1, entity),
                  next_oid := next_oid g1 + 1\<rparr>
      in update_entity_indices g2 entity)"

definition add_entity ::
  "SemanticGraph \<Rightarrow> Entity \<Rightarrow> bool \<Rightarrow> datetime \<Rightarrow> (error + Entity) \<times> SemanticGraph" where
  "add_entity g entity merge_if_exists now =
     (if merge_if_exists
      then (case find_matching_entity g entity of
              Inl err \<Rightarrow> (Inl err, g)
            | Inr (Some (i, existing)) \<Rightarrow>
                (let merged = merge_observation existing entity (3 / 10) now
                 in (Inr merged, update_entity_indices (mutate_entity g i merged) merged))
            | Inr None \<Rightarrow> (Inr entity, add_new_entity g entity))
      else (Inr entity, add_new_entity g entity))"

text \<open>\<open>_find_existing_relationship\<close>, lines 327-334.\<close>

definition find_existing_relationship :: "SemanticGraph \<Rightarrow> Relationship \<Rightarrow> error + Relationship obj option" where
  "find_existing_relationship g rel =
     (case get_relationships_obj g (Some (source_id rel)) (Some (target_id rel))
             (Some (relation_type rel)) of
        Inl err \<Rightarrow> Inl err
      | Inr [] \<Rightarrow> Inr None
      | Inr (r # rs) \<Rightarrow> Inr (Some r))"

definition mutate_relationship :: "SemanticGraph \<Rightarrow> oid \<Rightarrow> Relationship \<Rightarrow> SemanticGraph" where
  "mutate_relationship g i r' =
     (let upd = (\<lambda>(k, (j, r)). (k, (j, if j = i then r' else r)))
      in g\<lparr>graph := (graph g)\<lparr>adj_succ :=
                map (\<lambda>(u, nbrs). (u, map (\<lambda>(v, keydict). (v, map upd keydict)) nbrs))
                  (adj_succ (graph g))\<rparr>,
             relationship_index := map upd (relationship_index g)\<rparr>)"

text \<open>\<open>add_relationship\<close>, lines 59-96.\<close>

definition add_new_relationship :: "SemanticGraph \<Rightarrow> Relationship \<Rightarrow> SemanticGraph" where
  "add_new_relationship g relationship =
     (let r = (next_oid g, relationship)
      in g\<lparr>graph := add_edge (graph g) (source_id relationship) (target_id relationship)
                       (r_id relationship) r,
             relationship_index := dict_set (relationship_index g) (r_id relationship) r,
             next_oid := next_oid g + 1\<rparr>)"

definition add_relationship ::
  "SemanticGraph \<Rightarrow> Relationship \<Rightarrow> bool \<Rightarrow> datetime \<Rightarrow> (error + Relationship) \<times> SemanticGraph" where
  "add_relationship g relationship merge_if_exists now =
     (if map_of (entity_index g) (source_id relationship) = None
      then (Inl (ValueError ''Source entity not found''), g)
      else if map_of (entity_index g) (target_id relationship) = None
      then (Inl (ValueError ''Target entity not found''), g)
      else if merge_if_exists
      then (case find_existing_relationship g relationship of
              Inl err \<Rightarrow> (Inl err, g)
            | Inr (Some (i, existing)) \<Rightarrow>
                (let merged = rel_merge_observation existing (3 / 10) now
                 in (Inr merged, mutate_relationship g i merged))
            | Inr None \<Rightarrow> (Inr relationship, add_new_relationship g relationship))
      else (Inr relationship, add_new_relationship g relationship))"

subsection \<open>Fuzzy lookup in the words of the specification\<close>

text \<open>
  Section 4.1: an entity matches when the query is a substring of the name, or the name
  is a substring of the query, or the query is a substring of an alias, all lower-cased.
\<close>

definition fuzzy_spec :: "string \<Rightarrow> Entity \<Rightarrow> bool" where
  "fuzzy_spec query e =
     (sublist (lower query) (lower (name e))
      \<or> sublist (lower (name e)) (lower query)
      \<or> list_ex (\<lambda>alias. sublist (lower query) (lower alias)) (aliases (semantic e)))"

text \<open>The two criteria that the source implements.\<close>

definition fuzzy_impl :: "string \<Rightarrow> Entity \<Rightarrow> bool" where
  "fuzzy_impl query e =
     (sublist (lower query) (lower (name e))
      \<or> list_ex (\<lambda>alias. sublist (lower query) (lower alias)) (aliases (semantic e)))"

section \<open>Queries (graph/semantic\_graph.py)\<close>

subsection \<open>query\_spatial, lines 177-224\<close>

text \<open>The optional type filter: \<open>relation_type is None or rel.relation_type == relation_type\<close>.\<close>

definition type_ok :: "RelationType option \<Rightarrow> Relationship \<Rightarrow> bool" where
  "type_ok rt rel = (case rt of None \<Rightarrow> True | Some t \<Rightarrow> relation_type rel = t)"

text \<open>The first loop: the direct relationships.\<close>

fun direct_results ::
  "SemanticGraph \<Rightarrow> RelationType option \<Rightarrow> Relationship list \<Rightarrow> (Entity \<times> Relationship) list" where
  "direct_results g rt [] = []"
| "direct_results g rt (rel # rels) =
     (if \<not> type_ok rt rel then direct_results g rt rels
      else if is_spatial rel
      then (case get_entity g (target_id rel) of
              Some target \<Rightarrow> (target, rel) # direct_results g rt rels
            | None \<Rightarrow> direct_results g rt rels)
      else direct_results g rt rels)"

text \<open>
  The innermost loop of the multi-hop search, over the relationships that leave one entity
  of the current level. The state is \<open>(results, next_level, visited)\<close>.
\<close>

fun scan_edges ::
  "SemanticGraph \<Rightarrow> RelationType option \<Rightarrow> Relationship list
     \<Rightarrow> (Entity \<times> Relationship) list \<times> uuid list \<times> uuid list
     \<Rightarrow> (Entity \<times> Relationship) list \<times> uuid list \<times> uuid list" where
  "scan_edges g rt [] st = st"
| "scan_edges g rt (rel # rels) (results, next_level, visited) =
     (if target_id rel \<notin> set visited
      then scan_edges g rt rels
             ((if type_ok rt rel \<and> is_spatial rel
               then (case get_entity g (target_id rel) of
                       Some target \<Rightarrow> results @ [(target, rel)]
                     | None \<Rightarrow> results)
               else results),
              set_add next_level (target_id rel),
              set_add visited (target_id rel))
      else scan_edges g rt rels (results, next_level, visited))"

text \<open>The loop over the entities of the current level.\<close>

fun scan_level ::
  "SemanticGraph \<Rightarrow> RelationType option \<Rightarrow> uuid list
     \<Rightarrow> (Entity \<times> Relationship) list \<times> uuid list \<times> uuid list
     \<Rightarrow> error + (Entity \<times> Relationship) list \<times> uuid list \<times> uuid list" where
  "scan_level g rt [] st = Inr st"
| "scan_level g rt (eid # eids) st =
     (case get_relationships g (Some eid) None None of
        Inl err \<Rightarrow> Inl err
      | Inr rels \<Rightarrow> scan_level g rt eids (scan_edges g rt rels st))"

text \<open>\<open>for _ in range(max_hops - 1)\<close>: the number of rounds left is the first argument.\<close>

fun multi_hop ::
  "SemanticGraph \<Rightarrow> RelationType option \<Rightarrow> nat \<Rightarrow> uuid list
     \<Rightarrow> (Entity \<times> Relationship) list \<times> uuid list
     \<Rightarrow> error + (Entity \<times> Relationship) list" where
  "multi_hop g rt 0 current_level (results, visited) = Inr results"
| "multi_hop g rt (Suc n) current_level (results, visited) =
     (case scan_level g rt current_level (results, [], visited) of
        Inl err \<Rightarrow> Inl err
      | Inr (results', next_level, visited') \<Rightarrow> multi_hop g rt n next_level (results', visited'))"

definition query_spatial ::
  "SemanticGraph \<Rightarrow> Entity \<Rightarrow> RelationType option \<Rightarrow> int \<Rightarrow> error + (Entity \<times> Relationship) list" where
  "query_spatial g entity rt max_hops =
     (case get_relationships g (Some (e_id entity)) None None of
        Inl err \<Rightarrow> Inl err
      | Inr rels \<Rightarrow>
          (let results = direct_results g rt rels
           in if max_hops > 1
              then multi_hop g rt (nat (max_hops - 1)) [e_id entity] (results, [e_id entity])
              else Inr results))"

text \<open>
  The distance that the traversal sees: one hop leads from an entity along a relationship
  that leaves it to that relationship's \<open>target_id\<close>. \<open>within_hops g a k x\<close>: \<open>x\<close> is
  reached from \<open>a\<close> in at most \<open>k\<close> hops.
\<close>

inductive within_hops :: "SemanticGraph \<Rightarrow> uuid \<Rightarrow> nat \<Rightarrow> uuid \<Rightarrow> bool" where
  here: "within_hops g a k a"
| hop: "within_hops g a k x \<Longrightarrow> get_relationships g (Some x) None None = Inr rels
        \<Longrightarrow> rel \<in> set rels \<Longrightarrow> within_hops g a (Suc k) (target_id rel)"

code_pred within_hops .

subsection \<open>find\_path, lines 226-261\<close>










section \<open>Statistics, export and import (graph/semantic\_graph.py, lines 349-390)\<close>

subsection \<open>The stored form of an enumeration field\<close>

text \<open>
  \<open>Entity\<close> and \<open>Relationship\<close> declare \<open>class Config: use_enum_values = True\<close>
  (entity.py, lines 75-76; relationship.py, lines 90-91). With this setting the validation
  that builds a record stores in \<open>entity_type\<close> the value of the member of \<open>EntityType\<close>,
  which is a plain \<open>str\<close>, and not the member. The member and its value hash alike and
  compare equal (\<open>EntityType\<close> derives from \<open>str\<close>), so every dictionary lookup and every
  comparison of the source gives the same answer for both, and the record field
  \<open>entity_type\<close> of the model stands for either. They differ in the attribute \<open>value\<close>,
  which a member has and a plain \<open>str\<close> has not. The keys of \<open>_entities_by_type\<close> are the
  objects read from \<open>entity.entity_type\<close> (lines 339-341).
\<close>

datatype type_key = Member EntityType | Plain string

definition enum_value :: "EntityType \<Rightarrow> string" where
  "enum_value t =
     (case t of OBJECT \<Rightarrow> ''object'' | SPACE \<Rightarrow> ''space'' | LANDMARK \<Rightarrow> ''landmark''
      | PERSON \<Rightarrow> ''person'' | MATERIAL \<Rightarrow> ''material'' | EQUIPMENT \<Rightarrow> ''equipment''
      | CONTAINER \<Rightarrow> ''container'' | SURFACE \<Rightarrow> ''surface'' | UNKNOWN \<Rightarrow> ''unknown'')"

text \<open>What a validated record holds in \<open>entity_type\<close>.\<close>

definition stored_type :: "EntityType \<Rightarrow> type_key" where
  "stored_type t = Plain (enum_value t)"

text \<open>The attribute access \<open>entity_type.value\<close>.\<close>

fun value_attr :: "type_key \<Rightarrow> error + string" where
  "value_attr (Member t) = Inr (enum_value t)"
| "value_attr (Plain s) = Inl AttributeError"

subsection \<open>stats, lines 349-362\<close>

text \<open>
  The dictionary comprehension
  \<open>{entity_type.value: len(entities) for entity_type, entities in ...items()}\<close>,
  item by item.
\<close>

fun type_counts ::
  "(string \<times> nat) list \<Rightarrow> (EntityType \<times> uuid list) list \<Rightarrow> error + (string \<times> nat) list" where
  "type_counts acc [] = Inr acc"
| "type_counts acc ((t, ids) # items) =
     (case value_attr (stored_type t) of
        Inl err \<Rightarrow> Inl err
      | Inr k \<Rightarrow> type_counts (dict_set acc k (length ids)) items)"

text \<open>
  \<open>networkx.density\<close> of a directed graph with \<open>n\<close> nodes and \<open>m\<close> edges: 0 when
  \<open>m = 0\<close> or \<open>n \<le> 1\<close>, else \<open>m / (n * (n - 1))\<close>. Parallel edges count separately.
\<close>

definition number_of_edges :: "MultiDiGraph \<Rightarrow> nat" where
  "number_of_edges G =
     sum_list (map (\<lambda>(u, nbrs). sum_list (map (\<lambda>(v, keydict). length keydict) nbrs))
                 (adj_succ G))"

definition density :: "MultiDiGraph \<Rightarrow> real" where
  "density G =
     (let n = length (adj_succ G); m = number_of_edges G
      in if m = 0 \<or> n \<le> 1 then 0 else real m / (real n * (real n - 1)))"

record Stats =
  total_entities :: nat
  total_relationships :: nat
  stats_entities_by_type :: "(string \<times> nat) list"
  spatial_relationships :: nat
  graph_density :: real

definition stats :: "SemanticGraph \<Rightarrow> error + Stats" where
  "stats g =
     (case type_counts [] (entities_by_type g) of
        Inl err \<Rightarrow> Inl err
      | Inr by_type \<Rightarrow>
          Inr \<lparr>total_entities = length (entity_index g),
               total_relationships = length (relationship_index g),
               stats_entities_by_type = by_type,
               spatial_relationships =
                 length (filter (\<lambda>(k, (i, r)). is_spatial r) (relationship_index g)),
               graph_density = density (graph g)\<rparr>)"

subsection \<open>export\_to\_dict and import\_from\_dict, lines 364-390\<close>

text \<open>
  \<open>to_dict\<close> writes one item for every declared field of a record and \<open>from_dict\<close> reads
  them back and validates the result; the dictionary of a record is modelled by the record.
  The validation checks the declared bounds \<open>ge=0.0, le=1.0\<close> of the confidence fields.
\<close>

definition entity_from_dict :: "Entity \<Rightarrow> error + Entity" where
  "entity_from_dict d =
     (if 0 \<le> confidence d \<and> confidence d \<le> 1 then Inr d else Inl ValidationError)"

definition relationship_from_dict :: "Relationship \<Rightarrow> error + Relationship" where
  "relationship_from_dict d =
     (if 0 \<le> r_confidence d \<and> r_confidence d \<le> 1
         \<and> (case spatial d of None \<Rightarrow> True
             | Some sp \<Rightarrow> 0 \<le> sp_confidence sp \<and> sp_confidence sp \<le> 1)
      then Inr d else Inl ValidationError)"

record Export =
  entities :: "Entity list"
  relationships :: "Relationship list"
  exported_at :: datetime
  exported_stats :: Stats

text \<open>The items of the result are evaluated in the order in which they are written.\<close>

definition export_to_dict :: "SemanticGraph \<Rightarrow> datetime \<Rightarrow> error + Export" where
  "export_to_dict g now =
     (let es = map (\<lambda>(k, (i, e)). e) (entity_index g);
          rs = map (\<lambda>(k, (i, r)). r) (relationship_index g)
      in case stats g of
           Inl err \<Rightarrow> Inl err
         | Inr s \<Rightarrow> Inr \<lparr>entities = es, relationships = rs, exported_at = now,
                         exported_stats = s\<rparr>)"

fun import_entities :: "SemanticGraph \<Rightarrow> Entity list \<Rightarrow> datetime \<Rightarrow> error + SemanticGraph" where
  "import_entities g [] now = Inr g"
| "import_entities g (entity_data # ds) now =
     (case entity_from_dict entity_data of
        Inl err \<Rightarrow> Inl err
      | Inr entity \<Rightarrow>
          (case add_entity g entity False now of
             (Inl err, g') \<Rightarrow> Inl err
           | (Inr added, g') \<Rightarrow> import_entities g' ds now))"

fun import_relationships ::
  "SemanticGraph \<Rightarrow> Relationship list \<Rightarrow> datetime \<Rightarrow> error + SemanticGraph" where
  "import_relationships g [] now = Inr g"
| "import_relationships g (rel_data # ds) now =
     (case relationship_from_dict rel_data of
        Inl err \<Rightarrow> Inl err
      | Inr relationship \<Rightarrow>
          (case add_relationship g relationship False now of
             (Inl err, g') \<Rightarrow> Inl err
           | (Inr added, g') \<Rightarrow> import_relationships g' ds now))"

definition import_from_dict :: "Export \<Rightarrow> datetime \<Rightarrow> error + SemanticGraph" where
  "import_from_dict data now =
     (case import_entities empty_graph (entities data) now of
        Inl err \<Rightarrow> Inl err
      | Inr g \<Rightarrow> import_relationships g (relationships data) now)"

text \<open>Export, then import of what was exported.\<close>

definition export_import :: "SemanticGraph \<Rightarrow> datetime \<Rightarrow> error + SemanticGraph" where
  "export_import g now =
     (case export_to_dict g now of
        Inl err \<Rightarrow> Inl err
      | Inr data \<Rightarrow> import_from_dict data now)"

section \<open>Example records\<close>

definition example_semantic :: SemanticAttributes where
  "example_semantic =
     \<lparr>category = None, subcategory = None, sem_function = None, material_composition = [],
      brand = None, model = None, tags = {||}, description = None, aliases = []\<rparr>"

definition example_visual :: VisualFeatures where
  "example_visual =
     \<lparr>embedding = None, color_histogram = None, dominant_colors = [], size_estimate = None,
      shape_descriptor = None, texture_features = None\<rparr>"

text \<open>\<open>Entity(id=i, entity_type=t, name=n)\<close> built at time 0, every other field at its default.\<close>

definition mk_entity :: "uuid \<Rightarrow> EntityType \<Rightarrow> string \<Rightarrow> Entity" where
  "mk_entity i t n =
     \<lparr>e_id = i, entity_type = t, name = n, semantic = example_semantic,
      visual = example_visual, first_observed = 0, last_observed = 0, observation_count = 1,
      source_devices = {||}, confidence = 1 / 2, properties = []\<rparr>"

text \<open>\<open>Relationship(id=i, relation_type=t, source_id=s, target_id=d)\<close> built at time 0.\<close>

definition mk_relationship :: "uuid \<Rightarrow> RelationType \<Rightarrow> uuid \<Rightarrow> uuid \<Rightarrow> Relationship" where
  "mk_relationship i t s d =
     \<lparr>r_id = i, relation_type = t, source_id = s, target_id = d, spatial = None,
      r_first_observed = 0, r_last_observed = 0, r_observation_count = 1,
      r_source_devices = {||}, r_confidence = 1 / 2, is_bidirectional = False,
      r_properties = []\<rparr>"

text \<open>A store that holds one entity named "cup".\<close>

definition g_cup :: SemanticGraph where
  "g_cup = snd (add_entity empty_graph (mk_entity 1 OBJECT ''cup'') False 0)"

text \<open>A store that holds three entities a, b and c and no relationship.\<close>

definition g_abc :: SemanticGraph where
  "g_abc =
     snd (add_entity
       (snd (add_entity
         (snd (add_entity empty_graph (mk_entity 1 OBJECT ''a'') False 0))
         (mk_entity 2 SURFACE ''b'') False 0))
       (mk_entity 3 SPACE ''c'') False 0)"

text \<open>The chain: a is on b, b is in c.\<close>

definition g_chain :: SemanticGraph where
  "g_chain =
     snd (add_relationship
       (snd (add_relationship g_abc (mk_relationship 11 ON 1 2) False 0))
       (mk_relationship 12 IN 2 3) False 0)"

text \<open>Two entities a and b, and a is a part of b.\<close>

definition g_part :: SemanticGraph where
  "g_part =
     snd (add_relationship
       (snd (add_entity
         (snd (add_entity empty_graph (mk_entity 1 OBJECT ''a'') False 0))
         (mk_entity 2 SURFACE ''b'') False 0))
       (mk_relationship 11 PART_OF 1 2) False 0)"

text \<open>
  The store of \<open>tests/test_graph.py::test_graph_serialization\<close>: two entities and one
  relationship, each added with the default \<open>merge_if_exists=True\<close>.
\<close>

definition g_tool_table :: SemanticGraph where
  "g_tool_table =
     snd (add_relationship
       (snd (add_entity
         (snd (add_entity empty_graph (mk_entity 1 OBJECT ''Tool'') True 0))
         (mk_entity 2 SURFACE ''Table'') True 0))
       (mk_relationship 11 ON 1 2) True 0)"

subsection \<open>Reachable stores and the consistency of the indices\<close>

text \<open>The states that a sequence of calls of \<open>add_entity\<close> and \<open>add_relationship\<close> produces.\<close>

inductive reachable :: "SemanticGraph \<Rightarrow> bool" where
  init: "reachable empty_graph"
| entity: "reachable g \<Longrightarrow> reachable (snd (add_entity g e merge_if_exists now))"
| relationship: "reachable g \<Longrightarrow> reachable (snd (add_relationship g r merge_if_exists now))"

text \<open>
  The indices and the primary map agree: every id in a bucket of either index is a key of
  the primary map, and every entry of the primary map is filed, under its key, in the
  bucket of its type and in the bucket of its lower-cased name.
\<close>

definition indices_consistent :: "SemanticGraph \<Rightarrow> bool" where
  "indices_consistent g =
     ((\<forall>(t, ids) \<in> set (entities_by_type g). \<forall>i \<in> set ids. map_of (entity_index g) i \<noteq> None)
      \<and> (\<forall>(n, ids) \<in> set (entities_by_name g). \<forall>i \<in> set ids. map_of (entity_index g) i \<noteq> None)
      \<and> (\<forall>(k, (i, e)) \<in> set (entity_index g).
            k \<in> set (dget (entities_by_type g) (entity_type e))
            \<and> k \<in> set (dget (entities_by_name g) (lower (name e)))))"

text \<open>
  What the proof carries along: an entry is stored under the id of its entity, and no two
  entries hold the same object.
\<close>

definition store_invariant :: "SemanticGraph \<Rightarrow> bool" where
  "store_invariant g =
     ((\<forall>(k, (i, e)) \<in> set (entity_index g). k = e_id e \<and> i < next_oid g)
      \<and> distinct (map (fst \<circ> snd) (entity_index g))
      \<and> indices_consistent g)"

subsection \<open>The search level by level\<close>






section \<open>Theorems\<close>

text \<open>
  C8. For a relationship with confidence \<open>c\<close> in \<open>[0,1]\<close> and a weight \<open>w\<close> in \<open>[0,1]\<close>,
  the relationship merge sets the confidence to \<open>min 1 (c + w * (1 - c))\<close> and adds one
  to the observation count; the new confidence is at least \<open>c\<close> and at most 1.
\<close>

theorem rel_merge_observation_confidence:
  assumes "0 \<le> r_confidence r" and "r_confidence r \<le> 1" and "0 \<le> w" and "w \<le> 1"
  shows "r_confidence (rel_merge_observation r w now)
           = min 1 (r_confidence r + w * (1 - r_confidence r))
         \<and> r_observation_count (rel_merge_observation r w now) = r_observation_count r + 1
         \<and> r_confidence r \<le> r_confidence (rel_merge_observation r w now)
         \<and> r_confidence (rel_merge_observation r w now) \<le> 1"
proof -
  have "0 \<le> w * (1 - r_confidence r)"
    using assms by simp
  then show ?thesis
    using assms by (simp add: rel_merge_observation_def Let_def min_def)
qed

theorem rel_merge_observation_confidence_witness:
  "r_confidence (rel_merge_observation (mk_relationship 7 ON 1 2) (3 / 10) 5) = 13 / 20
   \<and> r_observation_count (rel_merge_observation (mk_relationship 7 ON 1 2) (3 / 10) 5) = 2"
  using rel_merge_observation_confidence [of "mk_relationship 7 ON 1 2" "3 / 10" 5]
  by (simp add: mk_relationship_def)

text \<open>
  C2. Merging an incoming entity observation with weight \<open>w\<close> into an existing entity
  leaves the confidence \<open>(1 - w) * c0 + w * c1\<close>, where \<open>c0\<close> is the existing and \<open>c1\<close>
  the incoming confidence, and adds exactly one to the observation count. This holds for
  every weight, in particular for every weight in \<open>[0,1]\<close>.
\<close>

theorem merge_observation_confidence:
  "confidence (merge_observation existing incoming w now)
     = (1 - w) * confidence existing + w * confidence incoming
   \<and> observation_count (merge_observation existing incoming w now)
     = observation_count existing + 1"
  by (simp add: merge_observation_def Let_def)

text \<open>
  C5. The claim: the category and the function of the existing entity are replaced by the
  incoming observation's values (when these are neither null nor empty) exactly when the
  incoming confidence exceeds the existing confidence as it was before the blend. The
  source blends first (line 96) and tests afterwards (line 105, under the comment
  "Update semantic fields if more confident"), so that the incoming confidence is compared
  with the blend and not with the confidence of the existing entity. At weight 1, existing
  confidence 0.2 and incoming confidence 0.9 the blend is 0.9 (on floats too:
  \<open>(1 - 1.0) * 0.2 + 1.0 * 0.9\<close> is \<open>0.0 + 0.9\<close>), the test \<open>0.9 > 0.9\<close> fails, and
  category and function keep their old values although the incoming observation is the
  more confident one.
\<close>

theorem merge_observation_category_not_replaced:
  "confidence ((mk_entity 2 OBJECT ''Tool'')\<lparr>confidence := 9 / 10,
          semantic := example_semantic\<lparr>category := Some ''new'', sem_function := Some ''cut''\<rparr>\<rparr>)
     > confidence ((mk_entity 1 OBJECT ''Tool'')\<lparr>confidence := 1 / 5,
          semantic := example_semantic\<lparr>category := Some ''old''\<rparr>\<rparr>)
   \<and> confidence (merge_observation
       ((mk_entity 1 OBJECT ''Tool'')\<lparr>confidence := 1 / 5,
          semantic := example_semantic\<lparr>category := Some ''old''\<rparr>\<rparr>)
       ((mk_entity 2 OBJECT ''Tool'')\<lparr>confidence := 9 / 10,
          semantic := example_semantic\<lparr>category := Some ''new'', sem_function := Some ''cut''\<rparr>\<rparr>)
       1 5) = 9 / 10
   \<and> category (semantic (merge_observation
       ((mk_entity 1 OBJECT ''Tool'')\<lparr>confidence := 1 / 5,
          semantic := example_semantic\<lparr>category := Some ''old''\<rparr>\<rparr>)
       ((mk_entity 2 OBJECT ''Tool'')\<lparr>confidence := 9 / 10,
          semantic := example_semantic\<lparr>category := Some ''new'', sem_function := Some ''cut''\<rparr>\<rparr>)
       1 5)) = Some ''old''
   \<and> sem_function (semantic (merge_observation
       ((mk_entity 1 OBJECT ''Tool'')\<lparr>confidence := 1 / 5,
          semantic := example_semantic\<lparr>category := Some ''old''\<rparr>\<rparr>)
       ((mk_entity 2 OBJECT ''Tool'')\<lparr>confidence := 9 / 10,
          semantic := example_semantic\<lparr>category := Some ''new'', sem_function := Some ''cut''\<rparr>\<rparr>)
       1 5)) = None"
  by (simp add: merge_observation_def Let_def mk_entity_def example_semantic_def)

subsection \<open>The matching rule\<close>

lemma sum_list_zip_nth:
  fixes u v :: "real list"
  assumes "length u = length v"
  shows "sum_list (map (\<lambda>(a, b). a * b) (zip u v)) = (\<Sum>i<length u. u ! i * v ! i)"
proof -
  have "sum_list (map (\<lambda>(a, b). a * b) (zip u v))
          = (\<Sum>i = 0..<length (zip u v). (\<lambda>(a, b). a * b) (zip u v ! i))"
    by (simp add: sum_list_sum_nth)
  also have "\<dots> = (\<Sum>i = 0..<length u. u ! i * v ! i)"
    using assms by (intro sum.cong) auto
  finally show ?thesis
    by (simp add: lessThan_atLeast0)
qed

lemma sum_list_squares_nth:
  fixes u :: "real list"
  shows "sum_list (map (\<lambda>a. a * a) u) = (\<Sum>i<length u. (u ! i)\<^sup>2)"
proof -
  have "sum_list (map (\<lambda>a. a * a) u) = (\<Sum>i = 0..<length u. u ! i * u ! i)"
    by (simp add: sum_list_sum_nth)
  then show ?thesis
    by (simp add: lessThan_atLeast0 power2_eq_square)
qed

lemma cosine_similarity_spec: "cosine_similarity u v = cosine_spec u v"
  by (simp add: cosine_similarity_def cosine_spec_def dot_spec_def norm_spec_def Let_def
      sum_list_zip_nth sum_list_squares_nth)

lemma all_names_spec: "all_names e = names_spec e"
  by (auto simp: all_names_def names_spec_def)

lemma visual_match_spec:
  "visual_match a b t = (\<exists>u v. has_embedding a u \<and> has_embedding b v \<and> cosine_spec u v > t)"
  by (auto simp: visual_match_def has_embedding_def cosine_similarity_spec split: option.splits)

lemma tag_match_spec:
  "tag_match a b = (tags (semantic a) \<noteq> {||} \<and> tags (semantic b) \<noteq> {||}
              \<and> jaccard_spec (tags (semantic a)) (tags (semantic b)) > 1 / 2)"
proof (cases "tags (semantic a) = {||}")
  case True
  then show ?thesis by (simp add: tag_match_def)
next
  case False
  then have "fcard (tags (semantic a) |\<union>| tags (semantic b)) > 0"
    by (metis fcard_fempty funion_fempty_left gr0I fcard_0_eq sup_eq_bot_iff)
  then show ?thesis
    by (simp add: tag_match_def jaccard_spec_def Let_def fcard.rep_eq)
qed

lemma cosine_spec_nonneg_threshold:
  assumes "0 \<le> t" and "u = [] \<or> v = []"
  shows "\<not> cosine_spec u v > t"
proof -
  have "norm_spec [] = 0" by (simp add: norm_spec_def)
  then have "cosine_spec u v = 0"
    using assms(2) by (auto simp: cosine_spec_def)
  then show ?thesis using assms(1) by simp
qed

text \<open>
  C1. \<open>matches a b t\<close> is the ordered chain of the specification: a known-type mismatch
  gives false; otherwise equal lower-cased names give true; otherwise an overlap of the
  lower-cased names and aliases gives true; otherwise two embeddings with cosine
  similarity above \<open>t\<close> give true; otherwise two non-empty tag sets with Jaccard overlap
  above one half give true; otherwise false. No criterion is weighted against another.
  "Has a visual embedding" is read as the source tests it: the vector is present and not
  empty. For a threshold \<open>t \<ge> 0\<close> the reading "present" gives the same chain, since the
  similarity of an empty vector with anything is 0 (\<open>cosine_spec_nonneg_threshold\<close>).
\<close>

theorem matches_is_predicate_chain: "matches a b t = matches_spec a b t"
  unfolding matches_def matches_spec_def all_names_spec visual_match_spec tag_match_spec
  by auto

theorem matches_is_predicate_chain_witness:
  "matches_spec (mk_entity 1 OBJECT ''Hammer'') (mk_entity 2 OBJECT ''hammer'') (7 / 10)
   \<and> \<not> matches_spec (mk_entity 1 OBJECT ''Hammer'') (mk_entity 2 SURFACE ''hammer'') (7 / 10)"
  using matches_is_predicate_chain [of "mk_entity 1 OBJECT ''Hammer''" "mk_entity 2 OBJECT ''hammer''" "7 / 10"]
    matches_is_predicate_chain [of "mk_entity 1 OBJECT ''Hammer''" "mk_entity 2 SURFACE ''hammer''" "7 / 10"]
  by (simp add: matches_def mk_entity_def lower_def lower_char_def)

subsection \<open>Rejected relationships\<close>

text \<open>
  C3. A relationship whose source or target id is not a key of the entity store is
  rejected, with or without merging: the call raises (the source raises \<open>ValueError\<close>,
  the reference error of the specification) and the store after the call is the store
  before it; in particular the number of relationships, the relationship-id map and the
  adjacency structure are unchanged.
\<close>

theorem add_relationship_missing_endpoint:
  assumes "map_of (entity_index g) (source_id rel) = None
           \<or> map_of (entity_index g) (target_id rel) = None"
  shows "(\<exists>msg. fst (add_relationship g rel merge_if_exists now) = Inl (ValueError msg))
         \<and> snd (add_relationship g rel merge_if_exists now) = g
         \<and> length (relationship_index (snd (add_relationship g rel merge_if_exists now)))
             = length (relationship_index g)
         \<and> relationship_index (snd (add_relationship g rel merge_if_exists now))
             = relationship_index g
         \<and> graph (snd (add_relationship g rel merge_if_exists now)) = graph g"
  using assms by (auto simp: add_relationship_def)

theorem add_relationship_missing_endpoint_witness:
  "add_relationship empty_graph (mk_relationship 7 ON 1 2) True 5
     = (Inl (ValueError ''Source entity not found''), empty_graph)"
  using add_relationship_missing_endpoint [of empty_graph "mk_relationship 7 ON 1 2" True 5]
  by (simp add: add_relationship_def empty_graph_def)

subsection \<open>Fuzzy lookup\<close>

lemma str_in_sublist: "str_in q s = sublist q s"
proof (induction s)
  case Nil
  then show ?case by simp
next
  case (Cons c cs)
  then show ?case by (auto simp: sublist_Cons_right)
qed

lemma fuzzy_hit_impl: "fuzzy_hit (lower q) e = fuzzy_impl q e"
  by (simp add: fuzzy_hit_def fuzzy_impl_def str_in_sublist)

lemma g_cup_index: "entity_index g_cup = [(1, (0, mk_entity 1 OBJECT ''cup''))]"
  by (simp add: g_cup_def add_entity_def add_new_entity_def update_entity_indices_def empty_graph_def Let_def mk_entity_def)

lemma lower_cup: "lower ''coffee cup'' = ''coffee cup''" "lower ''cup'' = ''cup''"
  by (simp_all add: lower_def lower_char_def)

text \<open>
  C6 (amended). Fuzzy lookup returns exactly the stored entities for which, comparing
  lower-cased strings, the query is a substring of the name or of at least one alias.
  That the name is a substring of the query does not make an entity match.
\<close>

theorem fuzzy_lookup_two_criteria:
  "\<exists>es. get_entities_by_name g query True = Inr es
        \<and> (\<forall>e. e \<in> set es \<longleftrightarrow> e \<in> set (map (snd \<circ> snd) (entity_index g)) \<and> fuzzy_impl query e)"
  by (auto simp: get_entities_by_name_def get_entities_by_name_obj_def Let_def fuzzy_hit_impl
      intro: rev_image_eqI)

theorem fuzzy_lookup_two_criteria_witness:
  "\<exists>es. get_entities_by_name g_cup ''CUP'' True = Inr es \<and> mk_entity 1 OBJECT ''cup'' \<in> set es"
proof -
  have "sublist ''cup'' ''cup''" by simp
  then have "fuzzy_impl ''CUP'' (mk_entity 1 OBJECT ''cup'')"
    by (simp add: fuzzy_impl_def lower_def lower_char_def mk_entity_def)
  then show ?thesis
    using fuzzy_lookup_two_criteria [of g_cup "''CUP''"] by (auto simp: g_cup_index)
qed

theorem fuzzy_lookup_counterexample:
  "fuzzy_spec ''coffee cup'' (mk_entity 1 OBJECT ''cup'')
   \<and> get_entities_by_name (snd (add_entity empty_graph (mk_entity 1 OBJECT ''cup'') False 0))
        ''coffee cup'' True = Inr []"
proof -
  have "str_in ''cup'' ''coffee cup''" by simp
  then have "sublist ''cup'' ''coffee cup''" by (simp only: str_in_sublist)
  then have a: "fuzzy_spec ''coffee cup'' (mk_entity 1 OBJECT ''cup'')"
    by (simp add: fuzzy_spec_def lower_cup mk_entity_def)
  have "\<not> str_in ''coffee cup'' ''cup''" by simp
  then have b: "\<not> fuzzy_hit ''coffee cup'' (mk_entity 1 OBJECT ''cup'')"
    by (simp add: fuzzy_hit_def lower_cup mk_entity_def example_semantic_def)
  have "get_entities_by_name g_cup ''coffee cup'' True = Inr []"
    using b by (simp add: get_entities_by_name_def get_entities_by_name_obj_def g_cup_index lower_cup)
  with a show ?thesis by (simp add: g_cup_def)
qed

subsection \<open>Consistency of the indices\<close>

lemma map_of_dict_set: "map_of (dict_set d k v) k' = (if k' = k then Some v else map_of d k')"
  by (induction d) auto

lemma set_dict_set_subset: "set (dict_set d k v) \<subseteq> insert (k, v) (set d)"
  by (induction d) (auto split: if_splits)

lemma dict_set_mem: "(k, v) \<in> set (dict_set d k v)"
  by (induction d) auto

lemma distinct_map_dict_set:
  "distinct (map f d) \<Longrightarrow> f (k, v) \<notin> f ` set d \<Longrightarrow> distinct (map f (dict_set d k v))"
proof (induction d)
  case Nil
  then show ?case by simp
next
  case (Cons a d)
  obtain k' v' where a: "a = (k', v')" by (cases a)
  show ?case
  proof (cases "k' = k")
    case True
    with Cons.prems a show ?thesis by auto
  next
    case False
    have "f a \<notin> f ` set (dict_set d k v)"
      using Cons.prems set_dict_set_subset [of d k v] by auto
    with False Cons a show ?thesis by auto
  qed
qed

lemma dget_dict_set: "dget (dict_set d k v) k' = (if k' = k then v else dget d k')"
  by (simp add: dget_def map_of_dict_set)

lemma set_set_add: "set (set_add s x) = insert x (set s)"
  by (auto simp: set_add_def)

lemma merge_observation_keeps:
  "e_id (merge_observation a b w now) = e_id a"
  "entity_type (merge_observation a b w now) = entity_type a"
  "name (merge_observation a b w now) = name a"
  by (simp_all add: merge_observation_def Let_def)

lemma update_entity_indices_fields:
  "entity_index (update_entity_indices g e) = entity_index g"
  "next_oid (update_entity_indices g e) = next_oid g"
  "graph (update_entity_indices g e) = graph g"
  "relationship_index (update_entity_indices g e) = relationship_index g"
  by (simp_all add: update_entity_indices_def Let_def)

lemma update_entity_indices_type:
  "set (dget (entities_by_type (update_entity_indices g e)) t)
     = (if t = entity_type e then insert (e_id e) (set (dget (entities_by_type g) t))
        else set (dget (entities_by_type g) t))"
  by (simp add: update_entity_indices_def Let_def dget_dict_set set_set_add)

lemma update_entity_indices_name:
  "set (dget (entities_by_name (update_entity_indices g e)) n)
     = (if n = lower (name e) then insert (e_id e) (set (dget (entities_by_name g) n))
        else set (dget (entities_by_name g) n))"
  by (simp add: update_entity_indices_def Let_def dget_dict_set set_set_add)

lemma dget_mem: "i \<in> set (dget d k) \<Longrightarrow> \<exists>ids. (k, ids) \<in> set d \<and> i \<in> set ids"
  by (cases "map_of d k") (auto simp: dget_def dest: map_of_SomeD)

lemma update_entity_indices_type_bucket:
  assumes "(t, ids) \<in> set (entities_by_type (update_entity_indices g e))" and "i \<in> set ids"
  shows "i = e_id e \<or> (\<exists>ids'. (t, ids') \<in> set (entities_by_type g) \<and> i \<in> set ids')"
proof -
  from assms(1) have "(t, ids) = (entity_type e, set_add (dget (entities_by_type g) (entity_type e)) (e_id e))
      \<or> (t, ids) \<in> set (entities_by_type g)"
    using set_dict_set_subset by (fastforce simp: update_entity_indices_def Let_def)
  then show ?thesis
    using assms(2) dget_mem by (fastforce simp: set_set_add)
qed

lemma update_entity_indices_name_bucket:
  assumes "(n, ids) \<in> set (entities_by_name (update_entity_indices g e))" and "i \<in> set ids"
  shows "i = e_id e \<or> (\<exists>ids'. (n, ids') \<in> set (entities_by_name g) \<and> i \<in> set ids')"
proof -
  from assms(1) have "(n, ids) = (lower (name e), set_add (dget (entities_by_name g) (lower (name e))) (e_id e))
      \<or> (n, ids) \<in> set (entities_by_name g)"
    using set_dict_set_subset by (fastforce simp: update_entity_indices_def Let_def)
  then show ?thesis
    using assms(2) dget_mem by (fastforce simp: set_set_add)
qed

text \<open>Refiling an entity whose id is a key keeps the indices consistent, provided the
  map's entries agree with the buckets everywhere else.\<close>

lemma indices_consistent_update:
  assumes b1: "\<forall>(t, ids) \<in> set (entities_by_type g). \<forall>i \<in> set ids. map_of (entity_index g) i \<noteq> None"
    and b2: "\<forall>(n, ids) \<in> set (entities_by_name g). \<forall>i \<in> set ids. map_of (entity_index g) i \<noteq> None"
    and key: "map_of (entity_index g) (e_id e) \<noteq> None"
    and rest: "\<forall>(k, (i, e')) \<in> set (entity_index g).
            (k = e_id e \<and> entity_type e' = entity_type e \<and> name e' = name e)
            \<or> (k \<in> set (dget (entities_by_type g) (entity_type e'))
               \<and> k \<in> set (dget (entities_by_name g) (lower (name e'))))"
  shows "indices_consistent (update_entity_indices g e)"
  unfolding indices_consistent_def
proof (intro conjI)
  show "\<forall>(t, ids)\<in>set (entities_by_type (update_entity_indices g e)).
       \<forall>i\<in>set ids. map_of (entity_index (update_entity_indices g e)) i \<noteq> None"
    using b1 key update_entity_indices_type_bucket [of _ _ g e]
    by (fastforce simp: update_entity_indices_fields)
  show "\<forall>(n, ids)\<in>set (entities_by_name (update_entity_indices g e)).
       \<forall>i\<in>set ids. map_of (entity_index (update_entity_indices g e)) i \<noteq> None"
    using b2 key update_entity_indices_name_bucket [of _ _ g e]
    by (fastforce simp: update_entity_indices_fields)
  show "\<forall>(k, i, e')\<in>set (entity_index (update_entity_indices g e)).
       k \<in> set (dget (entities_by_type (update_entity_indices g e)) (entity_type e')) \<and>
       k \<in> set (dget (entities_by_name (update_entity_indices g e)) (lower (name e')))"
    using rest
    by (fastforce simp: update_entity_indices_fields update_entity_indices_type update_entity_indices_name)
qed

lemma lookup_all_mem:
  "lookup_all idx ids = Inr es \<Longrightarrow> x \<in> set es \<Longrightarrow> \<exists>k. (k, x) \<in> set idx"
proof (induction ids arbitrary: es)
  case Nil
  then show ?case by simp
next
  case (Cons a ids)
  then show ?case
    using map_of_SomeD [of idx a] by (fastforce split: option.splits sum.splits)
qed

lemma find_matching_entity_mem:
  assumes "find_matching_entity g e = Inr (Some x)"
  shows "\<exists>k. (k, x) \<in> set (entity_index g)"
proof (cases "get_entities_by_name_obj g (name e) False")
  case (Inl err)
  with assms show ?thesis by (simp add: find_matching_entity_def)
next
  case (Inr candidates)
  then have cands: "\<And>y. y \<in> set candidates \<Longrightarrow> \<exists>k. (k, y) \<in> set (entity_index g)"
    using lookup_all_mem by (fastforce simp: get_entities_by_name_obj_def Let_def)
  show ?thesis
  proof (cases "find (\<lambda>(i, candidate). matches candidate e (7 / 10)) candidates")
    case (Some c)
    with Inr assms have "x = c" by (simp add: find_matching_entity_def)
    moreover from Some have "c \<in> set candidates"
      by (metis find_Some_iff nth_mem)
    ultimately show ?thesis using cands by blast
  next
    case None
    with Inr assms have
      "find (\<lambda>(i, existing). entity_type existing = entity_type e \<and> matches existing e (7 / 10))
         (map snd (entity_index g)) = Some x"
      by (simp add: find_matching_entity_def split: if_splits)
    then have "x \<in> set (map snd (entity_index g))"
      by (metis find_Some_iff nth_mem)
    then show ?thesis by auto
  qed
qed

lemma store_invariant_empty: "store_invariant empty_graph"
  by (simp add: store_invariant_def indices_consistent_def empty_graph_def)

lemma store_invariant_add_new_entity:
  assumes "store_invariant g"
  shows "store_invariant (add_new_entity g e)"
proof -
  define g2 where "g2 = g\<lparr>graph := add_node (graph g) (e_id e),
      entity_index := dict_set (entity_index g) (e_id e) (next_oid g, e),
      next_oid := next_oid g + 1\<rparr>"
  have new: "add_new_entity g e = update_entity_indices g2 e"
    by (simp add: add_new_entity_def g2_def Let_def)
  have idx2: "entity_index g2 = dict_set (entity_index g) (e_id e) (next_oid g, e)"
    and fields2: "entities_by_type g2 = entities_by_type g" "entities_by_name g2 = entities_by_name g"
      "next_oid g2 = next_oid g + 1"
    by (simp_all add: g2_def)
  from assms have old: "\<forall>(k, (i, e')) \<in> set (entity_index g). k = e_id e' \<and> i < next_oid g"
    and dist: "distinct (map (fst \<circ> snd) (entity_index g))"
    and cons: "indices_consistent g"
    by (simp_all add: store_invariant_def)
  have entries: "\<And>x. x \<in> set (entity_index g2)
      \<Longrightarrow> x = (e_id e, (next_oid g, e)) \<or> x \<in> set (entity_index g)"
    using set_dict_set_subset [of "entity_index g" "e_id e" "(next_oid g, e)"] idx2 by auto
  have a: "\<forall>(k, (i, e')) \<in> set (entity_index (add_new_entity g e)). k = e_id e' \<and> i < next_oid (add_new_entity g e)"
    using entries old by (fastforce simp: new update_entity_indices_fields fields2)
  have "(fst \<circ> snd) (e_id e, (next_oid g, e)) \<notin> (fst \<circ> snd) ` set (entity_index g)"
    using old by fastforce
  then have b: "distinct (map (fst \<circ> snd) (entity_index (add_new_entity g e)))"
    using dist by (simp add: new update_entity_indices_fields idx2 distinct_map_dict_set)
  have c: "indices_consistent (update_entity_indices g2 e)"
  proof (rule indices_consistent_update)
    show "\<forall>(t, ids)\<in>set (entities_by_type g2). \<forall>i\<in>set ids. map_of (entity_index g2) i \<noteq> None"
      using cons by (fastforce simp: indices_consistent_def fields2 idx2 map_of_dict_set)
    show "\<forall>(n, ids)\<in>set (entities_by_name g2). \<forall>i\<in>set ids. map_of (entity_index g2) i \<noteq> None"
      using cons by (fastforce simp: indices_consistent_def fields2 idx2 map_of_dict_set)
    show "map_of (entity_index g2) (e_id e) \<noteq> None"
      by (simp add: idx2 map_of_dict_set)
    show "\<forall>(k, i, e')\<in>set (entity_index g2).
       k = e_id e \<and> entity_type e' = entity_type e \<and> name e' = name e \<or>
       k \<in> set (dget (entities_by_type g2) (entity_type e')) \<and>
       k \<in> set (dget (entities_by_name g2) (lower (name e')))"
      using entries cons by (fastforce simp: indices_consistent_def fields2)
  qed
  from a b c show ?thesis
    by (simp add: store_invariant_def new)
qed

lemma store_invariant_merge:
  assumes inv: "store_invariant g" and mem: "(k0, (i, existing)) \<in> set (entity_index g)"
  shows "store_invariant
           (update_entity_indices (mutate_entity g i (merge_observation existing e w now))
              (merge_observation existing e w now))"
proof -
  define m where "m = merge_observation existing e w now"
  define g1 where "g1 = mutate_entity g i m"
  have keep: "e_id m = e_id existing" "entity_type m = entity_type existing" "name m = name existing"
    by (simp_all add: m_def merge_observation_keeps)
  from inv have old: "\<forall>(k, (j, e')) \<in> set (entity_index g). k = e_id e' \<and> j < next_oid g"
    and dist: "distinct (map (fst \<circ> snd) (entity_index g))"
    and cons: "indices_consistent g"
    by (simp_all add: store_invariant_def)
  have idx1: "entity_index g1 = map (\<lambda>(k, (j, e')). (k, (j, if j = i then m else e'))) (entity_index g)"
    and fields1: "entities_by_type g1 = entities_by_type g" "entities_by_name g1 = entities_by_name g"
      "next_oid g1 = next_oid g"
    by (simp_all add: g1_def mutate_entity_def)
  have same: "\<And>k j e'. (k, (j, e')) \<in> set (entity_index g) \<Longrightarrow> j = i \<Longrightarrow> k = k0 \<and> e' = existing"
  proof -
    fix k j e' assume "(k, (j, e')) \<in> set (entity_index g)" "j = i"
    then have "(fst \<circ> snd) (k, (j, e')) = (fst \<circ> snd) (k0, (i, existing))" by simp
    with dist \<open>(k, (j, e')) \<in> set (entity_index g)\<close> mem have "(k, (j, e')) = (k0, (i, existing))"
      by (meson distinct_map inj_onD)
    then show "k = k0 \<and> e' = existing" by simp
  qed
  have entries: "\<And>k j e1. (k, (j, e1)) \<in> set (entity_index g1) \<Longrightarrow>
      \<exists>e'. (k, (j, e')) \<in> set (entity_index g) \<and> e_id e1 = e_id e'
           \<and> entity_type e1 = entity_type e' \<and> name e1 = name e'"
    using same keep by (fastforce simp: idx1)
  have keys: "map fst (entity_index g1) = map fst (entity_index g)"
    by (simp add: idx1 case_prod_unfold comp_def)
  have oids: "map (fst \<circ> snd) (entity_index g1) = map (fst \<circ> snd) (entity_index g)"
    by (simp add: idx1 case_prod_unfold comp_def)
  have present: "\<And>k. map_of (entity_index g1) k \<noteq> None \<longleftrightarrow> map_of (entity_index g) k \<noteq> None"
    using keys by (metis map_of_eq_None_iff set_map)
  have a: "\<forall>(k, (j, e')) \<in> set (entity_index g1). k = e_id e' \<and> j < next_oid g1"
    using entries old by (fastforce simp: fields1)
  have c: "indices_consistent (update_entity_indices g1 m)"
  proof (rule indices_consistent_update)
    show "\<forall>(t, ids)\<in>set (entities_by_type g1). \<forall>j\<in>set ids. map_of (entity_index g1) j \<noteq> None"
      using cons present by (fastforce simp: indices_consistent_def fields1)
    show "\<forall>(n, ids)\<in>set (entities_by_name g1). \<forall>j\<in>set ids. map_of (entity_index g1) j \<noteq> None"
      using cons present by (fastforce simp: indices_consistent_def fields1)
    have "k0 = e_id existing" using old mem by fastforce
    moreover have "map_of (entity_index g) k0 \<noteq> None"
      using mem by (metis map_of_eq_None_iff fst_conv image_eqI)
    ultimately show "map_of (entity_index g1) (e_id m) \<noteq> None"
      using present keep by simp
    show "\<forall>(k, j, e')\<in>set (entity_index g1).
       k = e_id m \<and> entity_type e' = entity_type m \<and> name e' = name m \<or>
       k \<in> set (dget (entities_by_type g1) (entity_type e')) \<and>
       k \<in> set (dget (entities_by_name g1) (lower (name e')))"
    proof (clarify)
      fix k j e1 assume x: "(k, (j, e1)) \<in> set (entity_index g1)"
        and n: "\<not> (k \<in> set (dget (entities_by_type g1) (entity_type e1)) \<and>
       k \<in> set (dget (entities_by_name g1) (lower (name e1))))"
      from entries [OF x] obtain e' where "(k, (j, e')) \<in> set (entity_index g)"
        "entity_type e1 = entity_type e'" "name e1 = name e'" by blast
      with cons have "k \<in> set (dget (entities_by_type g1) (entity_type e1)) \<and>
       k \<in> set (dget (entities_by_name g1) (lower (name e1)))"
        by (fastforce simp: indices_consistent_def fields1)
      with n show "k = e_id m \<and> entity_type e1 = entity_type m \<and> name e1 = name m"
        by blast
    qed
  qed
  from a dist c show ?thesis
    by (simp add: store_invariant_def update_entity_indices_fields oids m_def [symmetric] g1_def [symmetric])
qed

lemma store_invariant_add_entity:
  assumes "store_invariant g"
  shows "store_invariant (snd (add_entity g e m now))"
proof (cases m)
  case False
  with assms show ?thesis
    by (simp add: add_entity_def store_invariant_add_new_entity)
next
  case True
  show ?thesis
  proof (cases "find_matching_entity g e")
    case (Inl err)
    with True assms show ?thesis by (simp add: add_entity_def)
  next
    case (Inr found)
    show ?thesis
    proof (cases found)
      case None
      with Inr True assms show ?thesis
        by (simp add: add_entity_def store_invariant_add_new_entity)
    next
      case (Some x)
      obtain i existing where x: "x = (i, existing)" by (cases x)
      from Inr Some x find_matching_entity_mem
      obtain k0 where "(k0, (i, existing)) \<in> set (entity_index g)" by blast
      with assms have "store_invariant
           (update_entity_indices (mutate_entity g i (merge_observation existing e (3 / 10) now))
              (merge_observation existing e (3 / 10) now))"
        by (rule store_invariant_merge)
      with Inr Some x True show ?thesis
        by (simp add: add_entity_def Let_def)
    qed
  qed
qed

lemma add_relationship_entity_fields:
  "entity_index (snd (add_relationship g r m now)) = entity_index g"
  "entities_by_type (snd (add_relationship g r m now)) = entities_by_type g"
  "entities_by_name (snd (add_relationship g r m now)) = entities_by_name g"
  "next_oid g \<le> next_oid (snd (add_relationship g r m now))"
  by (auto simp: add_relationship_def add_new_relationship_def mutate_relationship_def Let_def
      split: sum.splits option.splits)

lemma store_invariant_add_relationship:
  assumes "store_invariant g"
  shows "store_invariant (snd (add_relationship g r m now))"
  using assms add_relationship_entity_fields(4) [of g r m now]
  by (fastforce simp: store_invariant_def indices_consistent_def add_relationship_entity_fields(1-3))

lemma reachable_store_invariant: "reachable g \<Longrightarrow> store_invariant g"
  by (induction rule: reachable.induct)
    (simp_all add: store_invariant_empty store_invariant_add_entity store_invariant_add_relationship)

text \<open>
  C9. In every store that a sequence of calls of \<open>add_entity\<close> (inserting or merging) and
  \<open>add_relationship\<close> produces, the two indices and the primary map agree: every id in a
  bucket of the type index or of the name index is a key of the primary map, and every
  entity of the primary map is filed in the bucket of its type and in the bucket of its
  lower-cased name. One call is one step of the model: the source is single-threaded and
  a call that raises does so before it changes anything, so no state between the three
  writes of a call is observable.
\<close>

theorem indices_never_diverge:
  assumes "reachable g"
  shows "indices_consistent g"
  using assms reachable_store_invariant by (simp add: store_invariant_def)

theorem indices_never_diverge_witness:
  "reachable g_cup \<and> indices_consistent g_cup"
proof -
  have r: "reachable g_cup"
    unfolding g_cup_def by (rule reachable.entity [OF reachable.init])
  from indices_never_diverge [OF r] r show ?thesis by simp
qed

subsection \<open>The example stores\<close>

lemma mk_entity_sel:
  "e_id (mk_entity i t n) = i" "entity_type (mk_entity i t n) = t" "name (mk_entity i t n) = n"
  by (simp_all add: mk_entity_def)

lemma mk_relationship_sel:
  "r_id (mk_relationship i t s d) = i" "relation_type (mk_relationship i t s d) = t"
  "source_id (mk_relationship i t s d) = s" "target_id (mk_relationship i t s d) = d"
  by (simp_all add: mk_relationship_def)

lemma lower_abc: "lower ''a'' = ''a''" "lower ''b'' = ''b''" "lower ''c'' = ''c''"
  by (simp_all add: lower_def lower_char_def)

lemma add_entity_new:
  "snd (add_entity g e False now) =
     g\<lparr>graph := add_node (graph g) (e_id e),
       entity_index := dict_set (entity_index g) (e_id e) (next_oid g, e),
       entities_by_type := dict_set (entities_by_type g) (entity_type e)
          (set_add (dget (entities_by_type g) (entity_type e)) (e_id e)),
       entities_by_name := dict_set (entities_by_name g) (lower (name e))
          (set_add (dget (entities_by_name g) (lower (name e))) (e_id e)),
       next_oid := next_oid g + 1\<rparr>"
  by (simp add: add_entity_def add_new_entity_def update_entity_indices_def Let_def)

lemma g_ab_value:
  "snd (add_entity
         (snd (add_entity empty_graph (mk_entity 1 OBJECT ''a'') False 0))
         (mk_entity 2 SURFACE ''b'') False 0) =
     \<lparr>graph = \<lparr>adj_succ = [(1, []), (2, [])], adj_pred = [(1, []), (2, [])]\<rparr>,
      entity_index = [(1, (0, mk_entity 1 OBJECT ''a'')), (2, (1, mk_entity 2 SURFACE ''b''))],
      relationship_index = [],
      entities_by_type = [(OBJECT, [1]), (SURFACE, [2])],
      entities_by_name = [(''a'', [1]), (''b'', [2])],
      next_oid = 2\<rparr>"
  by (simp add: add_entity_new mk_entity_sel lower_abc empty_graph_def add_node_def has_node_def
      dget_def set_add_def)

lemma g_abc_value:
  "g_abc =
     \<lparr>graph = \<lparr>adj_succ = [(1, []), (2, []), (3, [])], adj_pred = [(1, []), (2, []), (3, [])]\<rparr>,
      entity_index = [(1, (0, mk_entity 1 OBJECT ''a'')), (2, (1, mk_entity 2 SURFACE ''b'')),
                      (3, (2, mk_entity 3 SPACE ''c''))],
      relationship_index = [],
      entities_by_type = [(OBJECT, [1]), (SURFACE, [2]), (SPACE, [3])],
      entities_by_name = [(''a'', [1]), (''b'', [2]), (''c'', [3])],
      next_oid = 3\<rparr>"
  unfolding g_abc_def g_ab_value
  by (simp add: add_entity_new mk_entity_sel lower_abc add_node_def has_node_def
      dget_def set_add_def)

lemma add_relationship_new:
  "map_of (entity_index g) (source_id r) \<noteq> None \<Longrightarrow>
   map_of (entity_index g) (target_id r) \<noteq> None \<Longrightarrow>
   snd (add_relationship g r False now) =
     g\<lparr>graph := add_edge (graph g) (source_id r) (target_id r) (r_id r) (next_oid g, r),
       relationship_index := dict_set (relationship_index g) (r_id r) (next_oid g, r),
       next_oid := next_oid g + 1\<rparr>"
  by (auto simp add: add_relationship_def add_new_relationship_def Let_def)

lemma g_chain_succ:
  "adj_succ (graph g_chain)
     = [(1, [(2, [(11, (3, mk_relationship 11 ON 1 2))])]),
        (2, [(3, [(12, (4, mk_relationship 12 IN 2 3))])]),
        (3, [])]"
  unfolding g_chain_def g_abc_value
  by (simp add: add_relationship_new mk_relationship_sel add_edge_def add_node_def has_node_def
      dget_def set_add_def Let_def)

lemma g_chain_index:
  "entity_index g_chain
     = [(1, (0, mk_entity 1 OBJECT ''a'')), (2, (1, mk_entity 2 SURFACE ''b'')),
        (3, (2, mk_entity 3 SPACE ''c''))]"
  unfolding g_chain_def g_abc_value
  by (simp add: add_relationship_new mk_relationship_sel)


lemma g_part_index:
  "entity_index g_part
     = [(1, (0, mk_entity 1 OBJECT ''a'')), (2, (1, mk_entity 2 SURFACE ''b''))]"
  unfolding g_part_def g_ab_value
  by (simp add: add_relationship_new mk_relationship_sel)

subsection \<open>Spatial queries\<close>

lemma within_hops_mono: "within_hops g a k x \<Longrightarrow> k \<le> k' \<Longrightarrow> within_hops g a k' x"
proof (induction arbitrary: k' rule: within_hops.induct)
  case (here g a k)
  show ?case by (rule within_hops.here)
next
  case (hop g a k x rels rel)
  from hop.prems obtain k'' where k': "k' = Suc k''" and "k \<le> k''"
    by (cases k') auto
  from hop.IH [OF \<open>k \<le> k''\<close>] hop.hyps(2,3) show ?case
    unfolding k' by (rule within_hops.hop)
qed

lemma direct_results_mem:
  "(t, r) \<in> set (direct_results g rt rels)
     \<Longrightarrow> r \<in> set rels \<and> get_entity g (target_id r) = Some t"
  by (induction rels) (auto split: if_splits option.splits)

lemma scan_edges_mem:
  assumes "scan_edges g rt rels (res, nl, vis) = (res', nl', vis')"
  shows "(\<forall>(t, r) \<in> set res'. (t, r) \<in> set res
            \<or> (r \<in> set rels \<and> get_entity g (target_id r) = Some t))
         \<and> (\<forall>x \<in> set nl'. x \<in> set nl \<or> x \<in> target_id ` set rels)"
  using assms
proof (induction rels arbitrary: res nl vis)
  case Nil
  then show ?case by auto
next
  case (Cons rel rels)
  show ?case
  proof (cases "target_id rel \<in> set vis")
    case True
    with Cons.prems have "scan_edges g rt rels (res, nl, vis) = (res', nl', vis')" by simp
    from Cons.IH [OF this] show ?thesis by auto
  next
    case False
    define res1 where "res1 = (if type_ok rt rel \<and> is_spatial rel
               then (case get_entity g (target_id rel) of
                       Some target \<Rightarrow> res @ [(target, rel)]
                     | None \<Rightarrow> res)
               else res)"
    have r1: "\<forall>(t, r) \<in> set res1. (t, r) \<in> set res
        \<or> (r = rel \<and> get_entity g (target_id r) = Some t)"
      by (auto simp: res1_def split: option.splits)
    from False Cons.prems have
      "scan_edges g rt rels (res1, set_add nl (target_id rel), set_add vis (target_id rel))
         = (res', nl', vis')"
      by (simp add: res1_def)
    from Cons.IH [OF this] r1 show ?thesis
      by (fastforce simp: set_add_def split: if_splits)
  qed
qed

lemma scan_level_within:
  assumes "scan_level g rt cur (res, nl, vis) = Inr (res', nl', vis')"
    and "\<forall>x \<in> set cur. within_hops g a d x"
    and "Suc d \<le> D"
    and "\<forall>(t, r) \<in> set res. within_hops g a D (target_id r)"
    and "\<forall>x \<in> set nl. within_hops g a (Suc d) x"
  shows "(\<forall>(t, r) \<in> set res'. within_hops g a D (target_id r))
         \<and> (\<forall>x \<in> set nl'. within_hops g a (Suc d) x)"
  using assms
proof (induction cur arbitrary: res nl vis)
  case Nil
  then show ?case by simp
next
  case (Cons eid eids)
  from Cons.prems(1) obtain rels where rels: "get_relationships g (Some eid) None None = Inr rels"
    by (cases "get_relationships g (Some eid) None None") auto
  obtain res1 nl1 vis1 where s: "scan_edges g rt rels (res, nl, vis) = (res1, nl1, vis1)"
    by (cases "scan_edges g rt rels (res, nl, vis)") auto
  from Cons.prems(1) rels s have rest: "scan_level g rt eids (res1, nl1, vis1) = Inr (res', nl', vis')"
    by simp
  have step: "\<And>r. r \<in> set rels \<Longrightarrow> within_hops g a (Suc d) (target_id r)"
    using Cons.prems(2) rels by (auto intro: within_hops.hop)
  then have stepD: "\<And>r. r \<in> set rels \<Longrightarrow> within_hops g a D (target_id r)"
    using Cons.prems(3) within_hops_mono by blast
  from scan_edges_mem [OF s] stepD Cons.prems(4)
  have a: "\<forall>(t, r) \<in> set res1. within_hops g a D (target_id r)"
    by fastforce
  from scan_edges_mem [OF s] step Cons.prems(5)
  have b: "\<forall>x \<in> set nl1. within_hops g a (Suc d) x"
    by fastforce
  from Cons.IH [OF rest _ Cons.prems(3) a b] Cons.prems(2) show ?case by simp
qed

lemma multi_hop_within:
  assumes "multi_hop g rt n cur (res, vis) = Inr out"
    and "\<forall>x \<in> set cur. within_hops g a d x"
    and "\<forall>(t, r) \<in> set res. within_hops g a (d + n) (target_id r)"
  shows "\<forall>(t, r) \<in> set out. within_hops g a (d + n) (target_id r)"
  using assms
proof (induction n arbitrary: cur res vis d)
  case 0
  then show ?case by simp
next
  case (Suc n)
  from Suc.prems(1) obtain res1 nl1 vis1
    where s: "scan_level g rt cur (res, [], vis) = Inr (res1, nl1, vis1)"
      and rest: "multi_hop g rt n nl1 (res1, vis1) = Inr out"
    by (auto split: sum.splits)
  have "Suc d \<le> d + Suc n" by simp
  from scan_level_within [OF s Suc.prems(2) this Suc.prems(3)]
  have a: "\<forall>(t, r) \<in> set res1. within_hops g a (Suc d + n) (target_id r)"
    and b: "\<forall>x \<in> set nl1. within_hops g a (Suc d) x"
    by simp_all
  from Suc.IH [OF rest b a] show ?case by simp
qed

lemma query_spatial_hop_bound:
  assumes "1 < h" and "query_spatial g e rt h = Inr res" and "(t, r) \<in> set res"
  shows "within_hops g (e_id e) (nat (h - 1)) (target_id r)"
proof -
  from assms(2) obtain rels where rels: "get_relationships g (Some (e_id e)) None None = Inr rels"
    by (cases "get_relationships g (Some (e_id e)) None None") (auto simp: query_spatial_def)
  with assms(1,2) have m: "multi_hop g rt (nat (h - 1)) [e_id e]
      (direct_results g rt rels, [e_id e]) = Inr res"
    by (simp add: query_spatial_def Let_def)
  have one: "\<And>t' r'. (t', r') \<in> set (direct_results g rt rels)
      \<Longrightarrow> within_hops g (e_id e) (Suc 0) (target_id r')"
    using direct_results_mem rels within_hops.here within_hops.hop by blast
  have "Suc 0 \<le> nat (h - 1)" using assms(1) by simp
  with one have d: "\<forall>(t', r') \<in> set (direct_results g rt rels).
      within_hops g (e_id e) (0 + nat (h - 1)) (target_id r')"
    using within_hops_mono by fastforce
  have c: "\<forall>x \<in> set [e_id e]. within_hops g (e_id e) 0 x"
    by (simp add: within_hops.here)
  from multi_hop_within [OF m c d] assms(3) show ?thesis by auto
qed

text \<open>
  C10. Let A and B be stored entities such that the only relationship that leaves A is r1,
  of type ON, with target B. Then \<open>query_spatial(A, max_hops=2)\<close> without a type filter
  returns exactly \<open>[(B, r1), (B, r1)]\<close>: the pair of the first hop twice, because the
  multi-hop loop starts again from A, and nothing that lies beyond B, whatever leaves B
  (an edge r2 of type IN from B to C in the claim). In general, for \<open>max_hops = h > 1\<close>
  every pair that \<open>query_spatial\<close> returns has a relationship whose target is at most
  \<open>h - 1\<close> hops from the start.
\<close>

theorem query_spatial_two_hops:
  assumes "get_relationships g (Some (e_id A)) None None = Inr [r1]"
    and "relation_type r1 = ON" and "target_id r1 = e_id B"
    and "get_entity g (e_id B) = Some B" and "e_id B \<noteq> e_id A"
  shows "query_spatial g A None 2 = Inr [(B, r1), (B, r1)]
         \<and> (\<forall>g' e rt h res t r. 1 < h \<and> query_spatial g' e rt h = Inr res \<and> (t, r) \<in> set res
               \<longrightarrow> within_hops g' (e_id e) (nat (h - 1)) (target_id r))"
proof
  have "is_spatial r1" using assms(2) by (simp add: is_spatial_def spatial_types_def)
  then show "query_spatial g A None 2 = Inr [(B, r1), (B, r1)]"
    using assms by (simp add: query_spatial_def type_ok_def set_add_def)
  show "\<forall>g' e rt h res t r. 1 < h \<and> query_spatial g' e rt h = Inr res \<and> (t, r) \<in> set res
               \<longrightarrow> within_hops g' (e_id e) (nat (h - 1)) (target_id r)"
    using query_spatial_hop_bound by blast
qed

theorem query_spatial_two_hops_witness:
  "query_spatial g_chain (mk_entity 1 OBJECT ''a'') None 2
     = Inr [(mk_entity 2 SURFACE ''b'', mk_relationship 11 ON 1 2),
            (mk_entity 2 SURFACE ''b'', mk_relationship 11 ON 1 2)]
   \<and> within_hops g_chain 1 1 2"
proof -
  let ?A = "mk_entity 1 OBJECT ''a''" and ?B = "mk_entity 2 SURFACE ''b''"
  let ?r1 = "mk_relationship 11 ON 1 2"
  have h1: "get_relationships g_chain (Some (e_id ?A)) None None = Inr [?r1]"
    by (simp add: get_relationships_def get_relationships_obj_def out_edges_def g_chain_succ
        mk_entity_sel)
  have h2: "relation_type ?r1 = ON" and h3: "target_id ?r1 = e_id ?B"
    by (simp_all add: mk_relationship_sel mk_entity_sel)
  have h4: "get_entity g_chain (e_id ?B) = Some ?B"
    by (simp add: get_entity_def g_chain_index mk_entity_sel)
  have h5: "e_id ?B \<noteq> e_id ?A"
    by (simp add: mk_entity_sel)
  note t = query_spatial_two_hops [OF h1 h2 h3 h4 h5]
  from t have q: "query_spatial g_chain ?A None 2 = Inr [(?B, ?r1), (?B, ?r1)]"
    by (rule conjunct1)
  from t have "\<forall>g' e rt h res t r. 1 < h \<and> query_spatial g' e rt h = Inr res \<and> (t, r) \<in> set res
               \<longrightarrow> within_hops g' (e_id e) (nat (h - 1)) (target_id r)"
    by (rule conjunct2)
  then have "1 < (2::int) \<and> query_spatial g_chain ?A None 2 = Inr [(?B, ?r1), (?B, ?r1)]
       \<and> (?B, ?r1) \<in> set [(?B, ?r1), (?B, ?r1)]
     \<longrightarrow> within_hops g_chain (e_id ?A) (nat (2 - 1)) (target_id ?r1)"
    by blast
  with q have "within_hops g_chain (e_id ?A) (nat (2 - 1)) (target_id ?r1)"
    by simp
  then have "within_hops g_chain 1 1 2"
    by (simp add: mk_entity_sel mk_relationship_sel)
  with q show ?thesis by simp
qed

subsection \<open>Paths\<close>





subsection \<open>The breadth-first search\<close>

































subsection \<open>Export and import\<close>

lemma mk_entity_embedding: "embedding (visual (mk_entity i t n)) = None"
  by (simp add: mk_entity_def example_visual_def)

lemma stats_raises: "entities_by_type g \<noteq> [] \<Longrightarrow> stats g = Inl AttributeError"
  by (cases "entities_by_type g") (auto simp: stats_def stored_type_def)

lemma export_to_dict_nonempty:
  "entities_by_type g \<noteq> [] \<Longrightarrow> export_to_dict g now = Inl AttributeError"
  by (simp add: export_to_dict_def stats_raises)

lemma export_to_dict_reachable:
  assumes "reachable g" and "entity_index g \<noteq> []"
  shows "export_to_dict g now = Inl AttributeError"
proof -
  from assms(2) obtain k i e where m: "(k, (i, e)) \<in> set (entity_index g)"
    by (cases "entity_index g") auto
  from reachable_store_invariant [OF assms(1)] have "indices_consistent g"
    by (simp add: store_invariant_def)
  with m have "k \<in> set (dget (entities_by_type g) (entity_type e))"
    unfolding indices_consistent_def by fastforce
  then have "entities_by_type g \<noteq> []"
    by (auto simp: dget_def)
  then show ?thesis
    by (rule export_to_dict_nonempty)
qed

lemma export_import_empty: "export_import empty_graph now = Inr empty_graph"
  by (simp add: export_import_def export_to_dict_def stats_def import_from_dict_def
      empty_graph_def)

lemma add_entity_fresh:
  "dget (entities_by_name g) (lower (name e)) = [] \<Longrightarrow> embedding (visual e) = None
     \<Longrightarrow> snd (add_entity g e True now) = add_new_entity g e"
  by (simp add: add_entity_def find_matching_entity_def get_entities_by_name_obj_def)

lemma lower_tool_table: "lower ''Tool'' = ''tool''" "lower ''Table'' = ''table''"
  by (simp_all add: lower_def lower_char_def)

lemma add_new_entity_indices:
  "entities_by_type (add_new_entity g e)
     = dict_set (entities_by_type g) (entity_type e)
         (set_add (dget (entities_by_type g) (entity_type e)) (e_id e))"
  "entities_by_name (add_new_entity g e)
     = dict_set (entities_by_name g) (lower (name e))
         (set_add (dget (entities_by_name g) (lower (name e))) (e_id e))"
  by (simp_all add: add_new_entity_def update_entity_indices_def Let_def)

lemma g_tool_table_by_type: "entities_by_type g_tool_table = [(OBJECT, [1]), (SURFACE, [2])]"
proof -
  let ?tool = "mk_entity 1 OBJECT ''Tool''" and ?table = "mk_entity 2 SURFACE ''Table''"
  note e = mk_entity_sel mk_entity_embedding lower_tool_table
  have 1: "snd (add_entity empty_graph ?tool True 0) = add_new_entity empty_graph ?tool"
    by (rule add_entity_fresh) (simp_all add: e empty_graph_def dget_def)
  have 2: "snd (add_entity (add_new_entity empty_graph ?tool) ?table True 0)
      = add_new_entity (add_new_entity empty_graph ?tool) ?table"
    by (rule add_entity_fresh)
      (simp_all add: e add_new_entity_indices empty_graph_def dget_def set_add_def)
  have 3: "entities_by_type (add_new_entity (add_new_entity empty_graph ?tool) ?table)
      = [(OBJECT, [1]), (SURFACE, [2])]"
    by (simp add: e add_new_entity_indices empty_graph_def dget_def set_add_def)
  show ?thesis
    unfolding g_tool_table_def add_relationship_entity_fields 1 2 by (rule 3)
qed

text \<open>
  C4. The claim: for every store, \<open>export_to_dict\<close> followed by \<open>import_from_dict\<close>
  gives a store with the same counts and, under every id, a record with the same fields.
  On the store of the repository's own serialization test \<open>export_to_dict\<close> gives no
  dictionary at all: it calls \<open>stats\<close>, which reads \<open>entity_type.value\<close> from the keys of
  the type index, and these keys are plain strings. The call raises \<open>AttributeError\<close>, and
  so does the round trip.
\<close>

theorem export_to_dict_raises:
  "export_to_dict g_tool_table now = Inl AttributeError
   \<and> export_import g_tool_table now = Inl AttributeError"
  by (simp add: export_import_def export_to_dict_nonempty g_tool_table_by_type)

end
